theory Spec2Isabelle
  imports Main "HOL-Library.Word"
begin

section \<open>HTTP data model (net/http as used by main.go)\<close>

text \<open>
  \<^verbatim>\<open>http.Header\<close> is a \<^verbatim>\<open>map[string][]string\<close>. \<^verbatim>\<open>Get\<close> returns the first value stored
  under the key, or the empty string when the key is missing or its slice is empty;
  \<^verbatim>\<open>Set\<close> replaces the slice by a one-element slice. Both canonicalise the key first; every
  key used by the program (\<^verbatim>\<open>X-Request-Id\<close>, \<^verbatim>\<open>User-Agent\<close>, \<^verbatim>\<open>Content-Type\<close>,
  \<^verbatim>\<open>X-Content-Type-Options\<close>) is already canonical, and the server stores inbound headers
  under canonical keys, so the keys are looked up as written.
\<close>

type_synonym header = "string \<Rightarrow> string list option"

definition header_get :: "header \<Rightarrow> string \<Rightarrow> string" where
  "header_get h k = (case h k of None \<Rightarrow> [] | Some [] \<Rightarrow> [] | Some (v # vs) \<Rightarrow> v)"

definition header_set :: "header \<Rightarrow> string \<Rightarrow> string \<Rightarrow> header" where
  "header_set h k v = h(k \<mapsto> [v])"

text \<open>
  A \<^verbatim>\<open>context.Context\<close> is a chain of key/value pairs, the most recent \<^verbatim>\<open>WithValue\<close>
  first. Keys are compared with their dynamic type: \<^verbatim>\<open>type key int\<close> is private to the
  package, so a key of another package never equals \<^verbatim>\<open>requestIDKey\<close>. Values are
  \<^verbatim>\<open>interface{}\<close>: either a string or something of another dynamic type.
\<close>

datatype ctx_key = Key int | ForeignKey string

datatype any = AString string | ANonString

type_synonym ctxt = "(ctx_key \<times> any) list"

definition requestIDKey :: ctx_key where
  "requestIDKey = Key 0"

definition with_value :: "ctxt \<Rightarrow> ctx_key \<Rightarrow> any \<Rightarrow> ctxt" where
  "with_value ctx k v = (k, v) # ctx"

definition ctx_value :: "ctxt \<Rightarrow> ctx_key \<Rightarrow> any option" where
  "ctx_value ctx k = map_of ctx k"

text \<open>The type assertion \<^verbatim>\<open>v, ok := x.(string)\<close>: the zero value and \<^verbatim>\<open>false\<close> unless
  \<^verbatim>\<open>x\<close> holds a string.\<close>

fun as_string :: "any option \<Rightarrow> string \<times> bool" where
  "as_string (Some (AString s)) = (s, True)"
| "as_string (Some ANonString) = ([], False)"
| "as_string None = ([], False)"

record request =
  req_method :: string
  url_path :: string
  remote_addr :: string
  req_header :: header
  req_ctx :: ctxt

definition user_agent :: "request \<Rightarrow> string" where
  "user_agent r = header_get (req_header r) ''User-Agent''"

text \<open>
  The state of an \<^verbatim>\<open>http.ResponseWriter\<close>: the header map, the status line once it has
  been written, and the body written so far.
\<close>

record response =
  resp_header :: header
  status :: "nat option"
  body :: string

definition new_response :: response where
  "new_response = \<lparr>resp_header = Map.empty, status = None, body = []\<rparr>"

text \<open>\<^verbatim>\<open>WriteHeader\<close> takes effect once; a later call is ignored (the server only reports
  it as superfluous).\<close>

definition write_header :: "nat \<Rightarrow> response \<Rightarrow> response" where
  "write_header code w = (case status w of None \<Rightarrow> w\<lparr>status := Some code\<rparr> | Some c \<Rightarrow> w)"

definition body_allowed_for_status :: "nat \<Rightarrow> bool" where
  "body_allowed_for_status code =
     (if 100 \<le> code \<and> code \<le> 199 then False
      else if code = 204 then False
      else if code = 304 then False
      else True)"

text \<open>\<^verbatim>\<open>Write\<close> sends status 200 first when no status was written, and refuses the data
  (\<^verbatim>\<open>ErrBodyNotAllowed\<close>) for a status that has no body.\<close>

definition write_body :: "string \<Rightarrow> response \<Rightarrow> response" where
  "write_body data w =
     (let w1 = write_header 200 w in
      case status w1 of
        None \<Rightarrow> w1
      | Some code \<Rightarrow> if body_allowed_for_status code then w1\<lparr>body := body w1 @ data\<rparr> else w1)"

definition newline :: string where
  "newline = [CHR 0x0A]"

definition fprintln :: "string \<Rightarrow> response \<Rightarrow> response" where
  "fprintln s w = write_body (s @ newline) w"

text \<open>\<^verbatim>\<open>http.Error\<close>: two header fields, the status, the message and a newline.\<close>

definition http_error :: "response \<Rightarrow> string \<Rightarrow> nat \<Rightarrow> response" where
  "http_error w msg code =
     (let w1 = w\<lparr>resp_header := header_set (resp_header w) ''Content-Type'' ''text/plain; charset=utf-8''\<rparr>;
          w2 = w1\<lparr>resp_header := header_set (resp_header w1) ''X-Content-Type-Options'' ''nosniff''\<rparr>;
          w3 = write_header code w2
      in fprintln msg w3)"

text \<open>
  A handler may return or panic; a panic unwinds through the callers, running their
  deferred functions. A handler works on the response writer, the request, and whatever
  state \<^typ>\<open>'s\<close> it can reach.
\<close>

datatype outcome = Returned | Panicked

type_synonym 's handler = "response \<Rightarrow> request \<Rightarrow> 's \<Rightarrow> response \<times> outcome \<times> 's"

section \<open>The logger\<close>

text \<open>
  A \<^verbatim>\<open>log.Logger\<close> over an \<^verbatim>\<open>io.Writer\<close>. \<^verbatim>\<open>Println\<close> formats its operands with single
  spaces and a newline, puts the prefix in front and writes the line to the sink; the error
  of the write is computed and dropped, \<^verbatim>\<open>Println\<close> has no result. \<^verbatim>\<open>calls\<close> keeps the
  operands of every \<^verbatim>\<open>Println\<close>, \<^verbatim>\<open>written\<close> the lines that reached the sink. The
  date and time that \<^verbatim>\<open>log.LstdFlags\<close> puts after the prefix are left out.
\<close>

record logger =
  prefix :: string
  sink_ok :: bool
  calls :: "string list list"
  written :: "string list"

fun sprintln :: "string list \<Rightarrow> string" where
  "sprintln [] = newline"
| "sprintln [a] = a @ newline"
| "sprintln (a # b # bs) = a @ '' '' @ sprintln (b # bs)"

definition sink_write :: "logger \<Rightarrow> string \<Rightarrow> string option \<times> logger" where
  "sink_write lg line =
     (if sink_ok lg then (None, lg\<lparr>written := written lg @ [line]\<rparr>)
      else (Some ''write failed'', lg))"

definition println :: "logger \<Rightarrow> string list \<Rightarrow> logger" where
  "println lg args =
     (let lg1 = lg\<lparr>calls := calls lg @ [args]\<rparr>;
          (err, lg2) = sink_write lg1 (prefix lg1 @ sprintln args)
      in lg2)"

section \<open>The middleware of main.go\<close>

text \<open>
  \<^verbatim>\<open>tracing\<close> (main.go, lines 168-180). \<^verbatim>\<open>nextRequestID\<close> is a \<^verbatim>\<open>func() string\<close>; it
  may read and change state, so it takes and returns the state.
\<close>

definition tracing :: "('s \<Rightarrow> string \<times> 's) \<Rightarrow> 's handler \<Rightarrow> 's handler" where
  "tracing nextRequestID next w r s =
     (let requestID0 = header_get (req_header r) ''X-Request-Id'';
          (requestID, s1) = (if requestID0 = [] then nextRequestID s else (requestID0, s));
          ctx = with_value (req_ctx r) requestIDKey (AString requestID);
          w1 = w\<lparr>resp_header := header_set (resp_header w) ''X-Request-Id'' requestID\<rparr>
      in next w1 (r\<lparr>req_ctx := ctx\<rparr>) s1)"

text \<open>
  \<^verbatim>\<open>logging\<close> (main.go, lines 153-166). The logger is reachable by this stage only; the
  wrapped handler works on the rest of the state. The deferred function runs when
  \<^verbatim>\<open>next.ServeHTTP\<close> has returned or panicked, and the outcome of \<^verbatim>\<open>next\<close> is passed on.
\<close>

definition logging :: "'s handler \<Rightarrow> (logger \<times> 's) handler" where
  "logging next w r ls =
     (let (w', oc, s') = next w r (snd ls);
          (requestID0, ok) = as_string (ctx_value (req_ctx r) requestIDKey);
          requestID = (if \<not> ok then ''unknown'' else requestID0);
          lg' = println (fst ls) [requestID, req_method r, url_path r, remote_addr r, user_agent r]
      in (w', oc, (lg', s')))"

section \<open>The middleware of the second program (part\_000)\<close>

text \<open>\<^verbatim>\<open>tracing\<close> (part\_000, lines 36-48) and \<^verbatim>\<open>logging\<close> (part\_000, lines 54-67),
  translated from that file.\<close>

definition tracing_p0 :: "('s \<Rightarrow> string \<times> 's) \<Rightarrow> 's handler \<Rightarrow> 's handler" where
  "tracing_p0 nextRequestID next w r s =
     (let requestID0 = header_get (req_header r) ''X-Request-Id'';
          (requestID, s1) = (if requestID0 = [] then nextRequestID s else (requestID0, s));
          ctx = with_value (req_ctx r) requestIDKey (AString requestID);
          w1 = w\<lparr>resp_header := header_set (resp_header w) ''X-Request-Id'' requestID\<rparr>
      in next w1 (r\<lparr>req_ctx := ctx\<rparr>) s1)"

definition logging_p0 :: "'s handler \<Rightarrow> (logger \<times> 's) handler" where
  "logging_p0 next w r ls =
     (let (w', oc, s') = next w r (snd ls);
          (requestID0, ok) = as_string (ctx_value (req_ctx r) requestIDKey);
          requestID = (if \<not> ok then ''unknown'' else requestID0);
          lg' = println (fst ls) [requestID, req_method r, url_path r, remote_addr r, user_agent r]
      in (w', oc, (lg', s')))"

section \<open>The handlers and the registry of main.go\<close>

text \<open>
  What the handlers of main.go can reach besides the request and the response writer: the
  package variable \<^verbatim>\<open>healthy\<close> (an \<^verbatim>\<open>int32\<close> read and written atomically), the wall
  clock, and the standard output. The clock is an input of the program: \<^verbatim>\<open>clock n\<close> is
  what the \<open>n\<close>-th call of \<^verbatim>\<open>time.Now().UnixNano()\<close> returns, an \<^verbatim>\<open>int64\<close>.
\<close>

record world =
  healthy :: "32 word"
  clock :: "nat \<Rightarrow> 64 word"
  ticks :: nat
  stdout :: "string list"

definition unix_nano_now :: "world \<Rightarrow> 64 word \<times> world" where
  "unix_nano_now s = (clock s (ticks s), s\<lparr>ticks := Suc (ticks s)\<rparr>)"

text \<open>\<^verbatim>\<open>fmt.Sprintf("%d", n)\<close> for an \<^verbatim>\<open>int64\<close>: a minus sign for a negative number, then
  the decimal digits of the magnitude, most significant first.\<close>

definition digit_char :: "nat \<Rightarrow> char" where
  "digit_char d = char_of (48 + d)"

fun fmt_u :: "nat \<Rightarrow> string" where
  "fmt_u n = (if n < 10 then [digit_char n] else fmt_u (n div 10) @ [digit_char (n mod 10)])"

declare fmt_u.simps [simp del]

definition sprintf_d :: "64 word \<Rightarrow> string" where
  "sprintf_d t = (if sint t < 0 then CHR ''-'' # fmt_u (nat (- sint t)) else fmt_u (nat (sint t)))"

text \<open>\<^verbatim>\<open>nextRequestID\<close> (main.go, lines 34-36).\<close>

definition nextRequestID :: "world \<Rightarrow> string \<times> world" where
  "nextRequestID s = (let (t, s1) = unix_nano_now s in (sprintf_d t, s1))"

text \<open>\<^verbatim>\<open>healthHandler\<close> (main.go, lines 145-151).\<close>

definition healthHandler :: "world handler" where
  "healthHandler w r s =
     (if healthy s = 1 then (write_header 204 w, Returned, s)
      else (write_header 503 w, Returned, s))"

text \<open>\<^verbatim>\<open>helloHandler\<close> (main.go, lines 134-136).\<close>

definition helloHandler :: "world handler" where
  "helloHandler w r s = (fprintln ''Hello, World!'' w, Returned, s)"

text \<open>\<^verbatim>\<open>forceTextHandler\<close> (main.go, lines 138-143).\<close>

definition forceTextHandler :: "world handler" where
  "forceTextHandler w r s =
     (let w1 = w\<lparr>resp_header := header_set (resp_header w) ''Content-Type'' ''text/plain; charset=utf-8''\<rparr>;
          w2 = w1\<lparr>resp_header := header_set (resp_header w1) ''X-Content-Type-Options'' ''nosniff''\<rparr>;
          w3 = write_header 200 w2
      in (fprintln (CHR ''{'' # CHR 0x22 # ''status'' @ CHR 0x22 # CHR '':'' # CHR 0x22 # ''ok'' @ [CHR 0x22, CHR ''}'']) w3,
          Returned, s))"

text \<open>
  \<^verbatim>\<open>indexHandler\<close> (main.go, lines 85-132). Parsing and executing the template belong to
  \<^verbatim>\<open>html/template\<close>; what they give for a request is a parameter: a parse error, or
  the output written to the response with the error of \<^verbatim>\<open>Execute\<close>, if any.
\<close>

datatype template_run = ParseFailed string | Executed string "string option"

definition indexHandler :: "(request \<Rightarrow> template_run) \<Rightarrow> world handler" where
  "indexHandler render w r s =
     (if url_path r \<noteq> ''/'' then (http_error w ''Not Found'' 404, Returned, s)
      else case render r of
        ParseFailed err \<Rightarrow> (http_error w err 500, Returned, s)
      | Executed out None \<Rightarrow> (write_body out w, Returned, s)
      | Executed out (Some err) \<Rightarrow> (write_body out w, Returned, s\<lparr>stdout := stdout s @ [err @ newline]\<rparr>))"

text \<open>
  \<^verbatim>\<open>routes\<close> (main.go, lines 76-83). A pattern without a trailing slash matches its path
  only, and \<^verbatim>\<open>/\<close> matches every other path. The answers that \<^verbatim>\<open>ServeMux\<close> gives by
  itself (the redirect of a path that is not in canonical form, the rejection of the
  request target \<^verbatim>\<open>*\<close>) are not modelled.
\<close>

definition routes :: "(request \<Rightarrow> template_run) \<Rightarrow> world handler" where
  "routes render w r s =
     (if url_path r = ''/health'' then healthHandler w r s
      else if url_path r = ''/hello'' then helloHandler w r s
      else if url_path r = ''/json-as-text'' then forceTextHandler w r s
      else indexHandler render w r s)"

text \<open>The handler of the server (main.go, line 40):
  \<^verbatim>\<open>tracing(nextRequestID)(logging(logger)(routes()))\<close>. The generator works on the
  world, next to the logger.\<close>

definition beside_logger :: "('s \<Rightarrow> 'a \<times> 's) \<Rightarrow> logger \<times> 's \<Rightarrow> 'a \<times> logger \<times> 's" where
  "beside_logger f ls = (let (x, s1) = f (snd ls) in (x, (fst ls, s1)))"

definition server_handler :: "(request \<Rightarrow> template_run) \<Rightarrow> (logger \<times> world) handler" where
  "server_handler render = tracing (beside_logger nextRequestID) (logging (routes render))"

section \<open>The shutdown orchestration of main (main.go, lines 47-73)\<close>

text \<open>
  After line 49 the program is two goroutines: \<^verbatim>\<open>main\<close> itself (lines 66-73) and the
  function started at line 51, which waits for the signal (lines 52-63). They share the
  variable \<^verbatim>\<open>healthy\<close>, the server, the logger and the channels \<^verbatim>\<open>quit\<close> and \<^verbatim>\<open>done\<close>.
  Each goroutine is a sequence of statements; a program counter says which statement
  comes next.
\<close>

datatype main_pc =
    M_LogReady          \<comment> \<open>line 66\<close>
  | M_SetReady          \<comment> \<open>line 67\<close>
  | M_ListenAndServe    \<comment> \<open>line 68, the call\<close>
  | M_Serving           \<comment> \<open>line 68, inside the accept loop\<close>
  | M_WaitDone          \<comment> \<open>line 72\<close>
  | M_LogStopped        \<comment> \<open>line 73\<close>
  | M_Returned
  | M_Fatal             \<comment> \<open>line 69\<close>

datatype sig_pc =
    S_WaitQuit          \<comment> \<open>line 52\<close>
  | S_LogShutdown       \<comment> \<open>line 53\<close>
  | S_SetDraining       \<comment> \<open>line 54\<close>
  | S_WithTimeout       \<comment> \<open>line 56\<close>
  | S_KeepAlivesOff     \<comment> \<open>line 59\<close>
  | S_Shutdown          \<comment> \<open>line 60, the call\<close>
  | S_Draining          \<comment> \<open>line 60, waiting for the connections or the deadline\<close>
  | S_CloseDone         \<comment> \<open>line 63\<close>
  | S_Finished
  | S_Fatal             \<comment> \<open>line 61\<close>

text \<open>What has happened so far, in order.\<close>

datatype event =
    EvSignal            \<comment> \<open>an interrupt or SIGTERM was delivered to \<^verbatim>\<open>quit\<close>\<close>
  | EvSetReady          \<comment> \<open>\<^verbatim>\<open>atomic.StoreInt32(&healthy, 1)\<close>\<close>
  | EvSetDraining       \<comment> \<open>\<^verbatim>\<open>atomic.StoreInt32(&healthy, 0)\<close>\<close>
  | EvTimerArmed        \<comment> \<open>\<^verbatim>\<open>context.WithTimeout\<close>, 30 seconds\<close>
  | EvBind              \<comment> \<open>the listening socket is bound and accepts\<close>
  | EvListenError
  | EvKeepAlivesOff     \<comment> \<open>\<^verbatim>\<open>server.SetKeepAlivesEnabled(false)\<close>\<close>
  | EvListenersClosed   \<comment> \<open>\<^verbatim>\<open>Shutdown\<close> closed the listeners\<close>
  | EvDrainWait         \<comment> \<open>\<^verbatim>\<open>Shutdown\<close> began to wait for the connections\<close>
  | EvDrained           \<comment> \<open>\<^verbatim>\<open>Shutdown\<close> returned \<^verbatim>\<open>nil\<close>\<close>
  | EvShutdownError     \<comment> \<open>\<^verbatim>\<open>Shutdown\<close> returned an error\<close>
  | EvCloseDone         \<comment> \<open>\<^verbatim>\<open>close(done)\<close>\<close>

record proc =
  flag :: "32 word"              \<comment> \<open>the variable \<^verbatim>\<open>healthy\<close>\<close>
  mpc :: main_pc
  spc :: sig_pc
  quit :: bool                   \<comment> \<open>the channel \<^verbatim>\<open>quit\<close>, of capacity 1, holds a signal\<close>
  done_closed :: bool
  keep_alives :: bool
  in_shutdown :: bool
  listening :: bool
  exit_status :: "nat option"    \<comment> \<open>set when the process has ended\<close>
  plog :: logger
  trace :: "event list"

definition start_logger :: logger where
  "start_logger = \<lparr>prefix = ''http: '', sink_ok = True, calls = [], written = []\<rparr>"

definition init :: proc where
  "init = \<lparr>flag = 0, mpc = M_LogReady, spc = S_WaitQuit, quit = False, done_closed = False,
           keep_alives = True, in_shutdown = False, listening = False, exit_status = None,
           plog = start_logger, trace = []\<rparr>"

text \<open>\<^verbatim>\<open>logger.Fatalf\<close>: the message is written like any other, then \<^verbatim>\<open>os.Exit(1)\<close>.\<close>

definition fatalf :: "string \<Rightarrow> proc \<Rightarrow> proc" where
  "fatalf msg s = s\<lparr>plog := println (plog s) [msg], exit_status := Some 1\<rparr>"

text \<open>
  What can happen next: a signal arrives, one of the goroutines executes its next
  statement, or a blocking call of the server ends with a result that the program does not
  choose: \<^verbatim>\<open>ListenAndServe\<close> fails (the address cannot be bound, or accepting fails), or
  \<^verbatim>\<open>Shutdown\<close> returns, with \<^verbatim>\<open>nil\<close> when every connection has finished and with the
  error of the context when the deadline has passed first.
\<close>

datatype action =
    Signal
  | RunMain
  | RunSig
  | ListenAndServeFails string
  | ShutdownReturns "string option"

definition deadline_exceeded :: string where
  "deadline_exceeded = ''context deadline exceeded''"

text \<open>The main goroutine, lines 66-73. \<^verbatim>\<open>ListenAndServe\<close> returns \<^verbatim>\<open>ErrServerClosed\<close>
  once \<^verbatim>\<open>Shutdown\<close> has been called, at once when that was before the call.\<close>

definition main_step :: "string \<Rightarrow> proc \<Rightarrow> proc option" where
  "main_step listenAddr s =
     (case mpc s of
        M_LogReady \<Rightarrow>
          Some (s\<lparr>plog := println (plog s) [''Server is ready to handle requests at'', listenAddr],
                  mpc := M_SetReady\<rparr>)
      | M_SetReady \<Rightarrow>
          Some (s\<lparr>flag := 1, trace := trace s @ [EvSetReady], mpc := M_ListenAndServe\<rparr>)
      | M_ListenAndServe \<Rightarrow>
          if in_shutdown s then Some (s\<lparr>mpc := M_WaitDone\<rparr>)
          else Some (s\<lparr>listening := True, trace := trace s @ [EvBind], mpc := M_Serving\<rparr>)
      | M_Serving \<Rightarrow>
          if in_shutdown s then Some (s\<lparr>mpc := M_WaitDone\<rparr>) else None
      | M_WaitDone \<Rightarrow>
          if done_closed s then Some (s\<lparr>mpc := M_LogStopped\<rparr>) else None
      | M_LogStopped \<Rightarrow>
          Some (s\<lparr>plog := println (plog s) [''Server stopped''], mpc := M_Returned,
                  exit_status := Some 0\<rparr>)
      | M_Returned \<Rightarrow> None
      | M_Fatal \<Rightarrow> None)"

text \<open>The goroutine of lines 51-64.\<close>

definition sig_step :: "proc \<Rightarrow> proc option" where
  "sig_step s =
     (case spc s of
        S_WaitQuit \<Rightarrow>
          if quit s then Some (s\<lparr>quit := False, spc := S_LogShutdown\<rparr>) else None
      | S_LogShutdown \<Rightarrow>
          Some (s\<lparr>plog := println (plog s) [''Server is shutting down...''], spc := S_SetDraining\<rparr>)
      | S_SetDraining \<Rightarrow>
          Some (s\<lparr>flag := 0, trace := trace s @ [EvSetDraining], spc := S_WithTimeout\<rparr>)
      | S_WithTimeout \<Rightarrow>
          Some (s\<lparr>trace := trace s @ [EvTimerArmed], spc := S_KeepAlivesOff\<rparr>)
      | S_KeepAlivesOff \<Rightarrow>
          Some (s\<lparr>keep_alives := False, trace := trace s @ [EvKeepAlivesOff], spc := S_Shutdown\<rparr>)
      | S_Shutdown \<Rightarrow>
          Some (s\<lparr>in_shutdown := True, listening := False,
                  trace := trace s @ [EvListenersClosed, EvDrainWait], spc := S_Draining\<rparr>)
      | S_Draining \<Rightarrow> None
      | S_CloseDone \<Rightarrow>
          Some (s\<lparr>done_closed := True, trace := trace s @ [EvCloseDone], spc := S_Finished\<rparr>)
      | S_Finished \<Rightarrow> None
      | S_Fatal \<Rightarrow> None)"

text \<open>One step of the program. Nothing happens once the process has ended. A signal that
  finds the channel full is dropped.\<close>

definition step :: "string \<Rightarrow> action \<Rightarrow> proc \<Rightarrow> proc option" where
  "step listenAddr a s =
     (if exit_status s \<noteq> None then None
      else case a of
        Signal \<Rightarrow> Some (s\<lparr>quit := True, trace := trace s @ [EvSignal]\<rparr>)
      | RunMain \<Rightarrow> main_step listenAddr s
      | RunSig \<Rightarrow> sig_step s
      | ListenAndServeFails err \<Rightarrow>
          if (mpc s = M_ListenAndServe \<or> mpc s = M_Serving) \<and> \<not> in_shutdown s
          then Some (fatalf (''Could not listen on '' @ listenAddr @ '': '' @ err)
                       (s\<lparr>listening := False, trace := trace s @ [EvListenError], mpc := M_Fatal\<rparr>))
          else None
      | ShutdownReturns None \<Rightarrow>
          if spc s = S_Draining
          then Some (s\<lparr>trace := trace s @ [EvDrained], spc := S_CloseDone\<rparr>)
          else None
      | ShutdownReturns (Some err) \<Rightarrow>
          if spc s = S_Draining
          then Some (fatalf (''Could not gracefully shutdown the server: '' @ err)
                       (s\<lparr>trace := trace s @ [EvShutdownError], spc := S_Fatal\<rparr>))
          else None)"

fun run :: "string \<Rightarrow> action list \<Rightarrow> proc \<Rightarrow> proc option" where
  "run listenAddr [] s = Some s"
| "run listenAddr (a # as) s =
     (case step listenAddr a s of None \<Rightarrow> None | Some s1 \<Rightarrow> run listenAddr as s1)"

text \<open>\<^verbatim>\<open>is_ready\<close>: the test of \<^verbatim>\<open>healthHandler\<close> (line 146) on the shared variable.\<close>

definition is_ready :: "proc \<Rightarrow> bool" where
  "is_ready s = (flag s = 1)"

section \<open>Notions used to state the properties\<close>

text \<open>A decimal numeral: an optional minus sign and at least one digit.\<close>

definition is_digit :: "char \<Rightarrow> bool" where
  "is_digit c = (48 \<le> (of_char c :: nat) \<and> (of_char c :: nat) \<le> 57)"

definition decimal_string :: "string \<Rightarrow> bool" where
  "decimal_string s =
     (case s of [] \<Rightarrow> False
      | c # cs \<Rightarrow> if c = CHR ''-'' then cs \<noteq> [] \<and> list_all is_digit cs else list_all is_digit (c # cs))"

text \<open>Reading a string of digits back, to show that \<^const>\<open>fmt_u\<close> loses nothing.\<close>

definition digit_val :: "char \<Rightarrow> nat" where
  "digit_val c = of_char c - 48"

definition parse_u :: "string \<Rightarrow> nat" where
  "parse_u s = foldl (\<lambda>a c. a * 10 + digit_val c) 0 s"

text \<open>The value of the outbound \<^verbatim>\<open>X-Request-Id\<close> header of a finished request.\<close>

definition outbound_id :: "response \<times> outcome \<times> 's \<Rightarrow> string" where
  "outbound_id res = header_get (resp_header (fst res)) ''X-Request-Id''"

text \<open>The operands of the \<^verbatim>\<open>Println\<close> calls made on the logger of a finished request.\<close>

definition log_calls :: "response \<times> outcome \<times> logger \<times> 's \<Rightarrow> string list list" where
  "log_calls res = calls (fst (snd (snd res)))"

text \<open>\<^verbatim>\<open>precedes a b tr\<close>: no \<open>b\<close> occurs in \<open>tr\<close> before the first \<open>a\<close>; in particular
  no \<open>b\<close> at all when there is no \<open>a\<close>.\<close>

fun precedes :: "event \<Rightarrow> event \<Rightarrow> event list \<Rightarrow> bool" where
  "precedes a b [] = True"
| "precedes a b (e # es) = (if e = a then True else if e = b then False else precedes a b es)"



text \<open>The stores to \<^verbatim>\<open>healthy\<close> among the events, and the value they leave.\<close>

definition flag_events :: "event list \<Rightarrow> event list" where
  "flag_events tr = filter (\<lambda>e. e = EvSetReady \<or> e = EvSetDraining) tr"

definition last_store_ready :: "event list \<Rightarrow> bool" where
  "last_store_ready tr = (case rev (flag_events tr) of [] \<Rightarrow> False | e # es \<Rightarrow> e = EvSetReady)"

text \<open>What is seen after a schedule from the start.\<close>

definition trace_after :: "action list \<Rightarrow> event list option" where
  "trace_after as = map_option trace (run '':9000'' as init)"

definition ready_after :: "action list \<Rightarrow> bool option" where
  "ready_after as = map_option is_ready (run '':9000'' as init)"

definition listening_after :: "action list \<Rightarrow> bool option" where
  "listening_after as = map_option listening (run '':9000'' as init)"

definition exit_after :: "action list \<Rightarrow> nat option option" where
  "exit_after as = map_option exit_status (run '':9000'' as init)"

definition log_after :: "action list \<Rightarrow> string list list option" where
  "log_after as = map_option (\<lambda>s. calls (plog s)) (run '':9000'' as init)"

definition done_after :: "action list \<Rightarrow> bool option" where
  "done_after as = map_option done_closed (run '':9000'' as init)"

text \<open>Schedules. The signal arrives before \<^verbatim>\<open>main\<close> has stored 1.\<close>

definition early_signal :: "action list" where
  "early_signal = [Signal, RunSig, RunSig, RunSig, RunMain, RunMain]"

text \<open>\<^verbatim>\<open>main\<close> runs up to the call of \<^verbatim>\<open>ListenAndServe\<close>.\<close>

definition ready_before_bind :: "action list" where
  "ready_before_bind = [RunMain, RunMain]"

text \<open>The server starts, a signal arrives, and the goroutine of line 51 reaches the drain.\<close>

definition shutdown_begins :: "action list" where
  "shutdown_begins = [RunMain, RunMain, RunMain, Signal, RunSig, RunSig, RunSig, RunSig, RunSig, RunSig]"

text \<open>\<^verbatim>\<open>main\<close> runs into \<^verbatim>\<open>ListenAndServe\<close> and the socket is bound.\<close>

definition server_starts :: "action list" where
  "server_starts = [RunMain, RunMain, RunMain]"

definition drain_times_out :: "action list" where
  "drain_times_out = shutdown_begins @ [ShutdownReturns (Some deadline_exceeded)]"

definition graceful_stop :: "action list" where
  "graceful_stop = shutdown_begins @ [ShutdownReturns None, RunSig, RunMain, RunMain, RunMain]"

section \<open>Concrete requests and states\<close>

definition stdout_logger :: logger where
  "stdout_logger = \<lparr>prefix = ''http: '', sink_ok = True, calls = [], written = []\<rparr>"

definition broken_logger :: logger where
  "broken_logger = \<lparr>prefix = ''http: '', sink_ok = False, calls = [], written = []\<rparr>"

text \<open>A clock that gives the same reading twice, and one that advances.\<close>

definition stalled_clock :: "nat \<Rightarrow> 64 word" where
  "stalled_clock n = 1540000000000000000"

definition ticking_clock :: "nat \<Rightarrow> 64 word" where
  "ticking_clock n = 1540000000000000000 + of_nat n"

definition stalled_world :: world where
  "stalled_world = \<lparr>healthy = 1, clock = stalled_clock, ticks = 0, stdout = []\<rparr>"

definition ticking_world :: world where
  "ticking_world = \<lparr>healthy = 1, clock = ticking_clock, ticks = 0, stdout = []\<rparr>"

definition draining_world :: world where
  "draining_world = \<lparr>healthy = 0, clock = ticking_clock, ticks = 0, stdout = []\<rparr>"

definition curl_headers :: header where
  "curl_headers = Map.empty(''User-Agent'' \<mapsto> [''curl/7.58.0''])"

definition tagged_request :: request where
  "tagged_request =
     \<lparr>req_method = ''GET'', url_path = ''/hello'', remote_addr = ''127.0.0.1:50000'',
      req_header = curl_headers(''X-Request-Id'' \<mapsto> [''abc-123'']), req_ctx = []\<rparr>"

definition anon_request :: request where
  "anon_request =
     \<lparr>req_method = ''GET'', url_path = ''/hello'', remote_addr = ''127.0.0.1:50000'',
      req_header = curl_headers, req_ctx = []\<rparr>"

definition health_request :: request where
  "health_request =
     \<lparr>req_method = ''GET'', url_path = ''/health'', remote_addr = ''127.0.0.1:50000'',
      req_header = curl_headers, req_ctx = []\<rparr>"

definition no_template :: "request \<Rightarrow> template_run" where
  "no_template r = ParseFailed ''template: index:2: unexpected : in operand''"

text \<open>Two requests without the header, one after the other, under the stalled clock.\<close>

definition first_run :: "response \<times> outcome \<times> logger \<times> world" where
  "first_run = server_handler no_template new_response anon_request (stdout_logger, stalled_world)"

definition second_run :: "response \<times> outcome \<times> logger \<times> world" where
  "second_run = server_handler no_template new_response anon_request (snd (snd first_run))"

section \<open>Auxiliary facts\<close>

lemma header_get_set_same: "header_get (header_set h k v) k = v"
  by (simp add: header_get_def header_set_def)

lemma header_get_set_other: "k' \<noteq> k \<Longrightarrow> header_get (header_set h k v) k' = header_get h k'"
  by (simp add: header_get_def header_set_def)

lemma write_header_hdr: "resp_header (write_header c w) = resp_header w"
  by (simp add: write_header_def split: option.splits)

lemma write_body_hdr: "resp_header (write_body d w) = resp_header w"
  by (simp add: write_body_def Let_def write_header_hdr split: option.splits)

lemma fprintln_hdr: "resp_header (fprintln m w) = resp_header w"
  by (simp add: fprintln_def write_body_hdr)

lemma http_error_keeps_request_id:
  "header_get (resp_header (http_error w m c)) ''X-Request-Id'' = header_get (resp_header w) ''X-Request-Id''"
  by (simp add: http_error_def Let_def fprintln_hdr write_header_hdr header_get_set_other)

lemma healthHandler_keeps: "header_get (resp_header (fst (healthHandler w r s))) ''X-Request-Id'' = header_get (resp_header w) ''X-Request-Id''"
  by (simp add: healthHandler_def write_header_hdr)

lemma helloHandler_keeps: "header_get (resp_header (fst (helloHandler w r s))) ''X-Request-Id'' = header_get (resp_header w) ''X-Request-Id''"
  by (simp add: helloHandler_def fprintln_hdr)

lemma forceTextHandler_keeps: "header_get (resp_header (fst (forceTextHandler w r s))) ''X-Request-Id'' = header_get (resp_header w) ''X-Request-Id''"
  by (simp add: forceTextHandler_def Let_def fprintln_hdr write_header_hdr header_get_set_other)

lemma indexHandler_keeps: "header_get (resp_header (fst (indexHandler render w r s))) ''X-Request-Id'' = header_get (resp_header w) ''X-Request-Id''"
  by (simp add: indexHandler_def http_error_keeps_request_id write_body_hdr split: template_run.splits option.splits)

lemma routes_keeps_request_id:
  "header_get (resp_header (fst (routes render w r s))) ''X-Request-Id'' = header_get (resp_header w) ''X-Request-Id''"
  by (simp add: routes_def healthHandler_keeps helloHandler_keeps forceTextHandler_keeps indexHandler_keeps)

lemma println_calls: "calls (println lg args) = calls lg @ [args]"
  by (simp add: println_def sink_write_def Let_def)

lemma logging_result:
  "logging next w r (lg, s) =
    (fst (next w r s), fst (snd (next w r s)),
     println lg [if snd (as_string (ctx_value (req_ctx r) requestIDKey)) then fst (as_string (ctx_value (req_ctx r) requestIDKey)) else ''unknown'',
                 req_method r, url_path r, remote_addr r, user_agent r],
     snd (snd (next w r s)))"
  by (simp add: logging_def Let_def split: prod.splits)

lemma tracing_result:
  "tracing gen next w r s =
     next (w\<lparr>resp_header := header_set (resp_header w) ''X-Request-Id''
               (if header_get (req_header r) ''X-Request-Id'' = [] then fst (gen s) else header_get (req_header r) ''X-Request-Id'')\<rparr>)
          (r\<lparr>req_ctx := with_value (req_ctx r) requestIDKey
               (AString (if header_get (req_header r) ''X-Request-Id'' = [] then fst (gen s) else header_get (req_header r) ''X-Request-Id''))\<rparr>)
          (if header_get (req_header r) ''X-Request-Id'' = [] then snd (gen s) else s)"
  by (simp add: tracing_def Let_def split: prod.splits)

lemma ctx_value_with_value: "ctx_value (with_value c k v) k = Some v"
  by (simp add: ctx_value_def with_value_def)

lemma server_handler_result:
  "server_handler render w r (lg, s) =
     (let rid = (if header_get (req_header r) ''X-Request-Id'' = [] then fst (nextRequestID s) else header_get (req_header r) ''X-Request-Id'');
          s1 = (if header_get (req_header r) ''X-Request-Id'' = [] then snd (nextRequestID s) else s);
          w1 = w\<lparr>resp_header := header_set (resp_header w) ''X-Request-Id'' rid\<rparr>;
          r1 = r\<lparr>req_ctx := with_value (req_ctx r) requestIDKey (AString rid)\<rparr>
      in (fst (routes render w1 r1 s1), fst (snd (routes render w1 r1 s1)),
          println lg [rid, req_method r, url_path r, remote_addr r, user_agent r],
          snd (snd (routes render w1 r1 s1))))"
  by (simp add: server_handler_def tracing_result beside_logger_def Let_def logging_result
       ctx_value_with_value user_agent_def split: prod.splits)


lemma digit_val_digit_char: "d < 10 \<Longrightarrow> digit_val (digit_char d) = d"
  by (simp add: digit_val_def digit_char_def)

lemma is_digit_digit_char: "d < 10 \<Longrightarrow> is_digit (digit_char d)"
  by (simp add: is_digit_def digit_char_def)

lemma fmt_u_nonempty: "fmt_u n \<noteq> []"
  by (subst fmt_u.simps) simp

lemma fmt_u_digits: "list_all is_digit (fmt_u n)"
proof (induction n rule: fmt_u.induct)
  case (1 n)
  show ?case
  proof (cases "n < 10")
    case True
    then show ?thesis by (subst fmt_u.simps) (simp add: is_digit_digit_char)
  next
    case False
    with 1 show ?thesis by (subst fmt_u.simps) (simp add: is_digit_digit_char)
  qed
qed

lemma parse_u_snoc: "parse_u (xs @ [c]) = parse_u xs * 10 + digit_val c"
  by (simp add: parse_u_def)

lemma parse_fmt_u: "parse_u (fmt_u n) = n"
proof (induction n rule: fmt_u.induct)
  case (1 n)
  show ?case
  proof (cases "n < 10")
    case True
    then show ?thesis by (subst fmt_u.simps) (simp add: parse_u_def digit_val_digit_char)
  next
    case False
    with 1 have "parse_u (fmt_u (n div 10)) = n div 10" by simp
    with False show ?thesis
      by (subst fmt_u.simps) (simp add: parse_u_snoc digit_val_digit_char)
  qed
qed

lemma fmt_u_inj: "fmt_u a = fmt_u b \<Longrightarrow> a = b"
  by (metis parse_fmt_u)

lemma minus_not_digit: "\<not> is_digit CHR ''-''"
  by (simp add: is_digit_def)

lemma fmt_u_hd_not_minus: "fmt_u n \<noteq> CHR ''-'' # cs"
proof
  assume h: "fmt_u n = CHR ''-'' # cs"
  have "list_all is_digit (fmt_u n)" by (rule fmt_u_digits)
  with h show False by (simp add: minus_not_digit)
qed

lemma sprintf_d_inj: "sprintf_d a = sprintf_d b \<Longrightarrow> a = b"
proof -
  assume h: "sprintf_d a = sprintf_d b"
  have "sint a = sint b"
  proof (cases "sint a < 0")
    case an: True
    show ?thesis
    proof (cases "sint b < 0")
      case True
      with an h have "nat (- sint a) = nat (- sint b)" by (simp add: sprintf_d_def fmt_u_inj)
      with an True show ?thesis by simp
    next
      case False
      with an h have "fmt_u (nat (sint b)) = CHR ''-'' # fmt_u (nat (- sint a))" by (simp add: sprintf_d_def)
      then show ?thesis using fmt_u_hd_not_minus by blast
    qed
  next
    case ap: False
    show ?thesis
    proof (cases "sint b < 0")
      case True
      with ap h have "fmt_u (nat (sint a)) = CHR ''-'' # fmt_u (nat (- sint b))" by (simp add: sprintf_d_def)
      then show ?thesis using fmt_u_hd_not_minus by blast
    next
      case False
      with ap h have "nat (sint a) = nat (sint b)" by (simp add: sprintf_d_def fmt_u_inj)
      with ap False show ?thesis by simp
    qed
  qed
  then show ?thesis by (rule signed_word_eqI)
qed

lemma sprintf_d_decimal: "decimal_string (sprintf_d t)"
proof (cases "sint t < 0")
  case True
  then show ?thesis by (simp add: sprintf_d_def decimal_string_def fmt_u_nonempty fmt_u_digits)
next
  case False
  obtain c cs where e: "fmt_u (nat (sint t)) = c # cs" using fmt_u_nonempty by (cases "fmt_u (nat (sint t))") auto
  have d: "list_all is_digit (c # cs)" using fmt_u_digits [of "nat (sint t)"] e by simp
  have "c \<noteq> CHR ''-''" using d minus_not_digit by auto
  with False e d show ?thesis by (simp add: sprintf_d_def decimal_string_def)
qed

lemma sprintf_d_nonempty: "sprintf_d t \<noteq> []"
  by (simp add: sprintf_d_def fmt_u_nonempty)

lemma digit_chars:
  "digit_char 0 = CHR ''0''" "digit_char 1 = CHR ''1''" "digit_char (Suc 0) = CHR ''1''"
  "digit_char 2 = CHR ''2''" "digit_char 3 = CHR ''3''" "digit_char 4 = CHR ''4''"
  "digit_char 5 = CHR ''5''" "digit_char 6 = CHR ''6''" "digit_char 7 = CHR ''7''"
  "digit_char 8 = CHR ''8''" "digit_char 9 = CHR ''9''"
  by code_simp+

lemma server_outbound_id:
  "outbound_id (server_handler render w r (lg, s)) =
     (if header_get (req_header r) ''X-Request-Id'' = [] then fst (nextRequestID s)
      else header_get (req_header r) ''X-Request-Id'')"
  by (simp add: outbound_id_def server_handler_result Let_def routes_keeps_request_id header_get_set_same)

lemma nextRequestID_fst: "fst (nextRequestID s) = sprintf_d (clock s (ticks s))"
  by (simp add: nextRequestID_def unix_nano_now_def)

lemma server_log_calls:
  "log_calls (server_handler render w r (lg, s)) =
     calls lg @ [[outbound_id (server_handler render w r (lg, s)), req_method r, url_path r, remote_addr r, user_agent r]]"
  by (simp add: log_calls_def outbound_id_def server_handler_result Let_def println_calls
        routes_keeps_request_id header_get_set_same)

lemma write_header_body: "body (write_header c w) = body w"
  by (simp add: write_header_def split: option.splits)

lemma write_header_fresh: "status w = None \<Longrightarrow> status (write_header c w) = Some c"
  by (simp add: write_header_def)

lemma healthHandler_result:
  "healthHandler w r s = (write_header (if healthy s = 1 then 204 else 503) w, Returned, s)"
  by (simp add: healthHandler_def)

lemma nextRequestID_healthy: "healthy (snd (nextRequestID s)) = healthy s"
  by (simp add: nextRequestID_def unix_nano_now_def)

lemma as_string_not_string:
  "(\<forall>rid. v \<noteq> Some (AString rid)) \<Longrightarrow> snd (as_string v) = False"
  by (cases v rule: as_string.cases) auto

lemma println_broken: "\<not> sink_ok lg \<Longrightarrow> written (println lg args) = written lg"
  by (simp add: println_def sink_write_def Let_def)

lemma println_response_free:
  "fst (logging inner w r (lg, s)) = fst (inner w r s)
   \<and> fst (snd (logging inner w r (lg, s))) = fst (snd (inner w r s))
   \<and> snd (snd (snd (logging inner w r (lg, s)))) = snd (snd (inner w r s))"
  by (simp add: logging_result)

section \<open>Auxiliary facts about the orchestration\<close>

lemma run_invariant:
  assumes "P s"
    and "\<And>a t t'. P t \<Longrightarrow> step addr a t = Some t' \<Longrightarrow> P t'"
    and "run addr as s = Some s'"
  shows "P s'"
  using assms(1,3)
proof (induction as arbitrary: s)
  case Nil
  then show ?case by simp
next
  case (Cons a as)
  then obtain s1 where s1: "step addr a s = Some s1" and r: "run addr as s1 = Some s'"
    by (auto split: option.splits)
  from Cons.prems(1) s1 have "P s1" by (rule assms(2))
  with r show ?case by (rule Cons.IH [rotated])
qed

lemma precedes_snoc:
  "a \<noteq> b \<Longrightarrow> precedes a b (tr @ [e]) = (precedes a b tr \<and> (e = b \<longrightarrow> a \<in> set tr))"
  by (induction tr) auto

lemma precedes_snoc2:
  "a \<noteq> b \<Longrightarrow> precedes a b (tr @ [e1, e2]) =
     (precedes a b tr \<and> (e1 = b \<longrightarrow> a \<in> set tr) \<and> (e2 = b \<longrightarrow> a \<in> set tr \<or> a = e1))"
proof -
  assume ab: "a \<noteq> b"
  have "tr @ [e1, e2] = (tr @ [e1]) @ [e2]" by simp
  then have "precedes a b (tr @ [e1, e2]) = precedes a b ((tr @ [e1]) @ [e2])" by simp
  also have "\<dots> = (precedes a b (tr @ [e1]) \<and> (e2 = b \<longrightarrow> a \<in> set (tr @ [e1])))"
    by (rule precedes_snoc [OF ab])
  also have "\<dots> = (precedes a b tr \<and> (e1 = b \<longrightarrow> a \<in> set tr) \<and> (e2 = b \<longrightarrow> a \<in> set tr \<or> a = e1))"
    using precedes_snoc [OF ab, of tr e1] by auto
  finally show ?thesis .
qed

lemma precedes_append_fixed: "a \<in> set tr \<Longrightarrow> precedes a b (tr @ ext) = precedes a b tr"
  by (induction tr) auto

lemma precedes_has_first: "a \<noteq> b \<Longrightarrow> precedes a b tr \<Longrightarrow> b \<in> set tr \<Longrightarrow> a \<in> set tr"
  by (induction tr) (auto split: if_splits)

lemma step_cases [consumes 1, case_names signal log_ready set_ready bind closed_before served wait_done
    log_stopped listen_fails recv log_shutdown set_draining with_timeout keep_alives_off shutdown
    close_done drained shutdown_fails]:
  assumes "step addr a t = Some t'"
  obtains
    "t' = t\<lparr>quit := True, trace := trace t @ [EvSignal]\<rparr>"
  | "mpc t = M_LogReady"
    "t' = t\<lparr>plog := println (plog t) [''Server is ready to handle requests at'', addr], mpc := M_SetReady\<rparr>"
  | "mpc t = M_SetReady"
    "t' = t\<lparr>flag := 1, trace := trace t @ [EvSetReady], mpc := M_ListenAndServe\<rparr>"
  | "mpc t = M_ListenAndServe" "\<not> in_shutdown t"
    "t' = t\<lparr>listening := True, trace := trace t @ [EvBind], mpc := M_Serving\<rparr>"
  | "mpc t = M_ListenAndServe" "in_shutdown t" "t' = t\<lparr>mpc := M_WaitDone\<rparr>"
  | "mpc t = M_Serving" "in_shutdown t" "t' = t\<lparr>mpc := M_WaitDone\<rparr>"
  | "mpc t = M_WaitDone" "done_closed t" "t' = t\<lparr>mpc := M_LogStopped\<rparr>"
  | "mpc t = M_LogStopped"
    "t' = t\<lparr>plog := println (plog t) [''Server stopped''], mpc := M_Returned, exit_status := Some 0\<rparr>"
  | err where "mpc t = M_ListenAndServe \<or> mpc t = M_Serving" "\<not> in_shutdown t"
    "t' = t\<lparr>listening := False, trace := trace t @ [EvListenError], mpc := M_Fatal,
             plog := println (plog t) [''Could not listen on '' @ addr @ '': '' @ err],
             exit_status := Some 1\<rparr>"
  | "spc t = S_WaitQuit" "quit t" "t' = t\<lparr>quit := False, spc := S_LogShutdown\<rparr>"
  | "spc t = S_LogShutdown"
    "t' = t\<lparr>plog := println (plog t) [''Server is shutting down...''], spc := S_SetDraining\<rparr>"
  | "spc t = S_SetDraining"
    "t' = t\<lparr>flag := 0, trace := trace t @ [EvSetDraining], spc := S_WithTimeout\<rparr>"
  | "spc t = S_WithTimeout" "t' = t\<lparr>trace := trace t @ [EvTimerArmed], spc := S_KeepAlivesOff\<rparr>"
  | "spc t = S_KeepAlivesOff"
    "t' = t\<lparr>keep_alives := False, trace := trace t @ [EvKeepAlivesOff], spc := S_Shutdown\<rparr>"
  | "spc t = S_Shutdown"
    "t' = t\<lparr>in_shutdown := True, listening := False,
             trace := trace t @ [EvListenersClosed, EvDrainWait], spc := S_Draining\<rparr>"
  | "spc t = S_CloseDone"
    "t' = t\<lparr>done_closed := True, trace := trace t @ [EvCloseDone], spc := S_Finished\<rparr>"
  | "spc t = S_Draining" "t' = t\<lparr>trace := trace t @ [EvDrained], spc := S_CloseDone\<rparr>"
  | err where "spc t = S_Draining"
    "t' = t\<lparr>trace := trace t @ [EvShutdownError], spc := S_Fatal,
             plog := println (plog t) [''Could not gracefully shutdown the server: '' @ err],
             exit_status := Some 1\<rparr>"
proof (cases a)
  case Signal
  with assms that(1) show ?thesis by (auto simp add: step_def split: if_splits)
next
  case RunMain
  with assms have m: "main_step addr t = Some t'" by (auto simp add: step_def split: if_splits)
  show ?thesis
  proof (cases "mpc t")
    case M_LogReady with m that(2) show ?thesis by (auto simp add: main_step_def)
  next
    case M_SetReady with m that(3) show ?thesis by (auto simp add: main_step_def)
  next
    case M_ListenAndServe with m that(4,5) show ?thesis by (auto simp add: main_step_def split: if_splits)
  next
    case M_Serving with m that(6) show ?thesis by (auto simp add: main_step_def split: if_splits)
  next
    case M_WaitDone with m that(7) show ?thesis by (auto simp add: main_step_def split: if_splits)
  next
    case M_LogStopped with m that(8) show ?thesis by (auto simp add: main_step_def)
  next
    case M_Returned with m show ?thesis by (simp add: main_step_def)
  next
    case M_Fatal with m show ?thesis by (simp add: main_step_def)
  qed
next
  case RunSig
  with assms have m: "sig_step t = Some t'" by (auto simp add: step_def split: if_splits)
  show ?thesis
  proof (cases "spc t")
    case S_WaitQuit with m that(10) show ?thesis by (auto simp add: sig_step_def split: if_splits)
  next
    case S_LogShutdown with m that(11) show ?thesis by (auto simp add: sig_step_def)
  next
    case S_SetDraining with m that(12) show ?thesis by (auto simp add: sig_step_def)
  next
    case S_WithTimeout with m that(13) show ?thesis by (auto simp add: sig_step_def)
  next
    case S_KeepAlivesOff with m that(14) show ?thesis by (auto simp add: sig_step_def)
  next
    case S_Shutdown with m that(15) show ?thesis by (auto simp add: sig_step_def)
  next
    case S_Draining with m show ?thesis by (simp add: sig_step_def)
  next
    case S_CloseDone with m that(16) show ?thesis by (auto simp add: sig_step_def)
  next
    case S_Finished with m show ?thesis by (simp add: sig_step_def)
  next
    case S_Fatal with m show ?thesis by (simp add: sig_step_def)
  qed
next
  case (ListenAndServeFails err)
  with assms that(9) [of err] show ?thesis
    by (auto simp add: step_def fatalf_def split: if_splits)
next
  case (ShutdownReturns r)
  show ?thesis
  proof (cases r)
    case None
    with ShutdownReturns assms that(17) show ?thesis by (auto simp add: step_def split: if_splits)
  next
    case (Some err)
    with ShutdownReturns assms that(18) [of err] show ?thesis
      by (auto simp add: step_def fatalf_def split: if_splits)
  qed
qed

lemma step_trace_grows:
  assumes "step addr a s = Some s'"
  shows "\<exists>ext. trace s' = trace s @ ext"
  using assms by (cases rule: step_cases) auto

lemma run_trace_grows: "run addr as s = Some s' \<Longrightarrow> \<exists>ext. trace s' = trace s @ ext"
proof (induction as arbitrary: s)
  case Nil
  then show ?case by simp
next
  case (Cons a as)
  then obtain s1 where s1: "step addr a s = Some s1" and r: "run addr as s1 = Some s'"
    by (auto split: option.splits)
  from step_trace_grows [OF s1] obtain m1 where "trace s1 = trace s @ m1" by blast
  moreover from Cons.IH [OF r] obtain m2 where "trace s' = trace s1 @ m2" by blast
  ultimately show ?case by simp
qed








lemma last_store_ready_snoc:
  "last_store_ready (tr @ [e]) =
     (if e = EvSetReady then True else if e = EvSetDraining then False else last_store_ready tr)"
  by (simp add: last_store_ready_def flag_events_def)

lemma last_store_ready_other:
  "EvSetReady \<notin> set es \<Longrightarrow> EvSetDraining \<notin> set es \<Longrightarrow> last_store_ready (tr @ es) = last_store_ready tr"
proof -
  assume "EvSetReady \<notin> set es" "EvSetDraining \<notin> set es"
  then have "filter (\<lambda>e. e = EvSetReady \<or> e = EvSetDraining) es = []"
    by (induction es) auto
  then show ?thesis by (simp add: last_store_ready_def flag_events_def)
qed

lemma last_store_ready_has_ready: "last_store_ready tr \<Longrightarrow> EvSetReady \<in> set tr"
  by (induction tr rule: rev_induct)
     (auto simp add: last_store_ready_snoc last_store_ready_def flag_events_def split: if_splits)

lemma ready_only_last_store:
  "EvSetReady \<in> set tr \<Longrightarrow> EvSetDraining \<notin> set tr \<Longrightarrow> last_store_ready tr"
  by (induction tr rule: rev_induct) (auto simp add: last_store_ready_snoc)

lemma step_flag:
  assumes "is_ready t = last_store_ready (trace t)" and "step addr a t = Some t'"
  shows "is_ready t' = last_store_ready (trace t')"
  using assms(2,1)
  by (cases rule: step_cases) (auto simp add: is_ready_def last_store_ready_snoc last_store_ready_other)

lemma run_flag:
  assumes "run addr as init = Some s"
  shows "is_ready s = last_store_ready (trace s)"
proof (rule run_invariant [where P = "\<lambda>t. is_ready t = last_store_ready (trace t)", OF _ _ assms])
  show "is_ready init = last_store_ready (trace init)"
    by (simp add: init_def is_ready_def last_store_ready_def flag_events_def)
qed (rule step_flag)

lemma step_ready_event:
  assumes "(EvSetReady \<in> set (trace t) \<longleftrightarrow> mpc t \<noteq> M_LogReady \<and> mpc t \<noteq> M_SetReady)
         \<and> precedes EvSetReady EvBind (trace t)
         \<and> (listening t \<longrightarrow> EvBind \<in> set (trace t))
         \<and> (EvSetDraining \<in> set (trace t) \<and> precedes EvSetReady EvSetDraining (trace t) \<longrightarrow> flag t = 0)"
    and "step addr a t = Some t'"
  shows "(EvSetReady \<in> set (trace t') \<longleftrightarrow> mpc t' \<noteq> M_LogReady \<and> mpc t' \<noteq> M_SetReady)
         \<and> precedes EvSetReady EvBind (trace t')
         \<and> (listening t' \<longrightarrow> EvBind \<in> set (trace t'))
         \<and> (EvSetDraining \<in> set (trace t') \<and> precedes EvSetReady EvSetDraining (trace t') \<longrightarrow> flag t' = 0)"
  using assms(2,1)
  by (cases rule: step_cases)
     (auto simp add: precedes_snoc precedes_snoc2 dest: precedes_has_first [rotated 1])

lemma run_ready_event:
  assumes "run addr as init = Some s"
  shows "(EvSetReady \<in> set (trace s) \<longleftrightarrow> mpc s \<noteq> M_LogReady \<and> mpc s \<noteq> M_SetReady)
         \<and> precedes EvSetReady EvBind (trace s)
         \<and> (listening s \<longrightarrow> EvBind \<in> set (trace s))
         \<and> (EvSetDraining \<in> set (trace s) \<and> precedes EvSetReady EvSetDraining (trace s) \<longrightarrow> flag s = 0)"
proof (rule run_invariant [where P = "\<lambda>t. (EvSetReady \<in> set (trace t) \<longleftrightarrow> mpc t \<noteq> M_LogReady \<and> mpc t \<noteq> M_SetReady)
         \<and> precedes EvSetReady EvBind (trace t)
         \<and> (listening t \<longrightarrow> EvBind \<in> set (trace t))
         \<and> (EvSetDraining \<in> set (trace t) \<and> precedes EvSetReady EvSetDraining (trace t) \<longrightarrow> flag t = 0)",
      OF _ _ assms])
  show "(EvSetReady \<in> set (trace init) \<longleftrightarrow> mpc init \<noteq> M_LogReady \<and> mpc init \<noteq> M_SetReady)
         \<and> precedes EvSetReady EvBind (trace init)
         \<and> (listening init \<longrightarrow> EvBind \<in> set (trace init))
         \<and> (EvSetDraining \<in> set (trace init) \<and> precedes EvSetReady EvSetDraining (trace init) \<longrightarrow> flag init = 0)"
    by (simp add: init_def)
qed (rule step_ready_event)

lemma step_alive: "step addr a t = Some t' \<Longrightarrow> exit_status t = None"
  by (simp add: step_def split: if_splits)

lemma step_done:
  assumes "(done_closed t \<longrightarrow> spc t = S_Finished)
         \<and> (mpc t = M_LogStopped \<or> mpc t = M_Returned \<longrightarrow> done_closed t)
         \<and> ([''Server stopped''] \<in> set (calls (plog t)) \<longrightarrow> mpc t = M_Returned)
         \<and> (spc t = S_Draining \<longrightarrow> exit_status t = None \<and> in_shutdown t)"
    and "step addr a t = Some t'"
  shows "(done_closed t' \<longrightarrow> spc t' = S_Finished)
         \<and> (mpc t' = M_LogStopped \<or> mpc t' = M_Returned \<longrightarrow> done_closed t')
         \<and> ([''Server stopped''] \<in> set (calls (plog t')) \<longrightarrow> mpc t' = M_Returned)
         \<and> (spc t' = S_Draining \<longrightarrow> exit_status t' = None \<and> in_shutdown t')"
  using assms(2,1) step_alive [OF assms(2)]
  by (cases rule: step_cases) (auto simp add: println_calls)

lemma run_done:
  assumes "run addr as init = Some s"
  shows "(done_closed s \<longrightarrow> spc s = S_Finished)
         \<and> (mpc s = M_LogStopped \<or> mpc s = M_Returned \<longrightarrow> done_closed s)
         \<and> ([''Server stopped''] \<in> set (calls (plog s)) \<longrightarrow> mpc s = M_Returned)
         \<and> (spc s = S_Draining \<longrightarrow> exit_status s = None \<and> in_shutdown s)"
proof (rule run_invariant [where P = "\<lambda>t. (done_closed t \<longrightarrow> spc t = S_Finished)
         \<and> (mpc t = M_LogStopped \<or> mpc t = M_Returned \<longrightarrow> done_closed t)
         \<and> ([''Server stopped''] \<in> set (calls (plog t)) \<longrightarrow> mpc t = M_Returned)
         \<and> (spc t = S_Draining \<longrightarrow> exit_status t = None \<and> in_shutdown t)", OF _ _ assms])
  show "(done_closed init \<longrightarrow> spc init = S_Finished)
         \<and> (mpc init = M_LogStopped \<or> mpc init = M_Returned \<longrightarrow> done_closed init)
         \<and> ([''Server stopped''] \<in> set (calls (plog init)) \<longrightarrow> mpc init = M_Returned)
         \<and> (spc init = S_Draining \<longrightarrow> exit_status init = None \<and> in_shutdown init)"
    by (simp add: init_def start_logger_def)
qed (rule step_done)

lemma run_append:
  "run addr (as @ bs) s = (case run addr as s of None \<Rightarrow> None | Some t \<Rightarrow> run addr bs t)"
  by (induction as arbitrary: s) (auto split: option.splits)

lemma exited_is_stuck: "exit_status s \<noteq> None \<Longrightarrow> step addr a s = None"
  by (simp add: step_def)

lemma shutdown_begins_runs:
  "\<exists>s. run '':9000'' shutdown_begins init = Some s
     \<and> trace s = [EvSetReady, EvBind, EvSignal, EvSetDraining, EvTimerArmed, EvKeepAlivesOff,
                  EvListenersClosed, EvDrainWait]
     \<and> spc s = S_Draining"
  by (simp add: shutdown_begins_def step_def main_step_def sig_step_def init_def)

section \<open>The claims about the middleware\<close>

text \<open>
  Claim C1. When the inbound \<^verbatim>\<open>X-Request-Id\<close> header of a request is present and not
  empty, the correlation stage takes that value as it is: it is the value stored in the
  context and set on the response handed to the wrapped handler, and the outbound
  \<^verbatim>\<open>X-Request-Id\<close> header of the server's response equals the inbound header.
\<close>

theorem tracing_pass_through:
  assumes "header_get (req_header r) ''X-Request-Id'' \<noteq> []"
  shows "tracing gen inner w r s =
           inner (w\<lparr>resp_header := header_set (resp_header w) ''X-Request-Id'' (header_get (req_header r) ''X-Request-Id'')\<rparr>)
                (r\<lparr>req_ctx := with_value (req_ctx r) requestIDKey (AString (header_get (req_header r) ''X-Request-Id''))\<rparr>) s
         \<and> outbound_id (server_handler render w r (lg, s0)) = header_get (req_header r) ''X-Request-Id''"
  using assms by (simp add: tracing_result server_outbound_id)

theorem tracing_pass_through_witness:
  "header_get (req_header tagged_request) ''X-Request-Id'' \<noteq> []
   \<and> outbound_id (server_handler no_template new_response tagged_request (stdout_logger, stalled_world)) = ''abc-123''"
proof -
  have h: "header_get (req_header tagged_request) ''X-Request-Id'' \<noteq> []"
    by (simp add: tagged_request_def header_get_def)
  have v: "header_get (req_header tagged_request) ''X-Request-Id'' = ''abc-123''"
    by (simp add: tagged_request_def header_get_def)
  from tracing_pass_through [OF h, where render = no_template and w = new_response
      and lg = stdout_logger and ?s0.0 = stalled_world and gen = nextRequestID
      and inner = healthHandler and s = stalled_world]
  show ?thesis using h v by simp
qed

text \<open>
  Claim C2, as stated, fails: two requests without the header, served one after the other
  while the clock gives the same reading, leave with the same generated id.
\<close>

theorem generated_ids_collide:
  "outbound_id first_run = ''1540000000000000000'' \<and> outbound_id second_run = ''1540000000000000000''"
proof -
  have a: "header_get (req_header anon_request) ''X-Request-Id'' = []"
    by (simp add: anon_request_def header_get_def curl_headers_def)
  have e: "sprintf_d 1540000000000000000 = ''1540000000000000000''"
    by (simp add: sprintf_d_def fmt_u.simps digit_chars)
  have f: "outbound_id first_run = ''1540000000000000000''"
    by (simp add: first_run_def server_outbound_id a nextRequestID_fst stalled_world_def stalled_clock_def e)
  obtain lg1 s1 where p: "snd (snd first_run) = (lg1, s1)" by (cases "snd (snd first_run)") auto
  have c: "clock s1 = stalled_clock"
    using p by (auto simp add: first_run_def server_handler_result Let_def routes_def anon_request_def
        helloHandler_def nextRequestID_def unix_nano_now_def stalled_world_def header_get_def curl_headers_def)
  have "outbound_id second_run = sprintf_d (clock s1 (ticks s1))"
    by (simp add: second_run_def p server_outbound_id a nextRequestID_fst)
  with c e f show ?thesis by (simp add: stalled_clock_def)
qed

text \<open>
  Claim C2, amended. When the inbound header is absent or empty, the outbound
  \<^verbatim>\<open>X-Request-Id\<close> header is the decimal rendering of the clock reading that the request
  took: it is not empty and it is a decimal numeral; two such requests get the same id
  exactly when their clock readings are equal.
\<close>

theorem generated_id_from_clock:
  assumes "header_get (req_header r1) ''X-Request-Id'' = []"
      and "header_get (req_header r2) ''X-Request-Id'' = []"
  shows "outbound_id (server_handler render w1 r1 (lg1, s1)) = sprintf_d (clock s1 (ticks s1))
       \<and> outbound_id (server_handler render w1 r1 (lg1, s1)) \<noteq> []
       \<and> decimal_string (outbound_id (server_handler render w1 r1 (lg1, s1)))
       \<and> (outbound_id (server_handler render w1 r1 (lg1, s1)) = outbound_id (server_handler render w2 r2 (lg2, s2))
            \<longleftrightarrow> clock s1 (ticks s1) = clock s2 (ticks s2))"
  using assms
  by (auto simp add: server_outbound_id nextRequestID_fst sprintf_d_nonempty sprintf_d_decimal
        dest: sprintf_d_inj)

theorem generated_id_from_clock_witness:
  "header_get (req_header anon_request) ''X-Request-Id'' = []
   \<and> outbound_id (server_handler no_template new_response anon_request (stdout_logger, ticking_world)) = ''1540000000000000000''
   \<and> outbound_id (server_handler no_template new_response anon_request (stdout_logger, ticking_world))
      \<noteq> outbound_id (server_handler no_template new_response anon_request (stdout_logger, ticking_world\<lparr>ticks := 1\<rparr>))"
proof -
  have a: "header_get (req_header anon_request) ''X-Request-Id'' = []"
    by (simp add: anon_request_def header_get_def curl_headers_def)
  have e: "sprintf_d 1540000000000000000 = ''1540000000000000000''"
    by (simp add: sprintf_d_def fmt_u.simps digit_chars)
  have n: "clock ticking_world (ticks ticking_world) \<noteq> clock (ticking_world\<lparr>ticks := 1\<rparr>) (ticks (ticking_world\<lparr>ticks := 1\<rparr>))"
    by (simp add: ticking_world_def ticking_clock_def)
  have z: "clock ticking_world (ticks ticking_world) = 1540000000000000000"
    by (simp add: ticking_world_def ticking_clock_def)
  note t = generated_id_from_clock [OF a a, where render = no_template and ?w1.0 = new_response
      and ?lg1.0 = stdout_logger and ?s1.0 = ticking_world and ?w2.0 = new_response
      and ?lg2.0 = stdout_logger and ?s2.0 = "ticking_world\<lparr>ticks := 1\<rparr>"]
  from t have "outbound_id (server_handler no_template new_response anon_request (stdout_logger, ticking_world))
      = sprintf_d (clock ticking_world (ticks ticking_world))" by blast
  with z e have 1: "outbound_id (server_handler no_template new_response anon_request (stdout_logger, ticking_world))
      = ''1540000000000000000''" by simp
  from t n have 2: "outbound_id (server_handler no_template new_response anon_request (stdout_logger, ticking_world))
      \<noteq> outbound_id (server_handler no_template new_response anon_request (stdout_logger, ticking_world\<lparr>ticks := 1\<rparr>))"
    by blast
  from a 1 2 show ?thesis by blast
qed

text \<open>
  Claim C3. Every request served by the composed handler
  \<^verbatim>\<open>tracing(nextRequestID)(logging(logger)(routes()))\<close> adds exactly one record to the
  calls of the logger, and the first field of that record, the correlation id, is the value
  of the outbound \<^verbatim>\<open>X-Request-Id\<close> header.
\<close>

theorem pipeline_one_log_record:
  "log_calls (server_handler render w r (lg, s)) =
     calls lg @ [[outbound_id (server_handler render w r (lg, s)), req_method r, url_path r, remote_addr r, user_agent r]]"
  by (rule server_log_calls)

text \<open>
  Claim C10. The \<^verbatim>\<open>tracing\<close> and \<^verbatim>\<open>logging\<close> of main.go and those of the second program
  are the same functions: for every generator, wrapped handler, response writer, request
  and state they give the same result.
\<close>

theorem middleware_equal:
  "tracing_p0 gen inner w r s = tracing gen inner w r s \<and> logging_p0 inner' w r ls = logging inner' w r ls"
  by (simp add: tracing_p0_def tracing_def logging_p0_def logging_def)

text \<open>
  Claim C8. A request to the health endpoint is answered with status 204 when
  \<^verbatim>\<open>healthy\<close> is 1 and with status 503 otherwise, and the handler writes no body: so for
  the handler itself, and so for the server's handler on the path \<^verbatim>\<open>/health\<close>.
\<close>

theorem health_status:
  assumes "url_path r = ''/health''"
  shows "status (fst (server_handler render new_response r (lg, s))) = Some (if healthy s = 1 then 204 else 503)
       \<and> body (fst (server_handler render new_response r (lg, s))) = []
       \<and> status (fst (healthHandler new_response r s)) = Some (if healthy s = 1 then 204 else 503)
       \<and> body (fst (healthHandler w r s)) = body w"
  using assms
  by (simp add: server_handler_result Let_def routes_def healthHandler_result write_header_body
      write_header_fresh nextRequestID_healthy new_response_def)

theorem health_status_witness:
  "url_path health_request = ''/health''
   \<and> status (fst (server_handler no_template new_response health_request (stdout_logger, ticking_world))) = Some 204
   \<and> status (fst (server_handler no_template new_response health_request (stdout_logger, draining_world))) = Some 503
   \<and> body (fst (server_handler no_template new_response health_request (stdout_logger, draining_world))) = []"
proof -
  have p: "url_path health_request = ''/health''" by (simp add: health_request_def)
  have h1: "healthy ticking_world = 1" by (simp add: ticking_world_def)
  have h0: "healthy draining_world \<noteq> 1" by (simp add: draining_world_def)
  from health_status [OF p, where render = no_template and lg = stdout_logger and s = ticking_world
      and w = new_response]
  have a: "status (fst (server_handler no_template new_response health_request (stdout_logger, ticking_world))) = Some 204"
    using h1 by simp
  from health_status [OF p, where render = no_template and lg = stdout_logger and s = draining_world
      and w = new_response]
  have b: "status (fst (server_handler no_template new_response health_request (stdout_logger, draining_world))) = Some 503
    \<and> body (fst (server_handler no_template new_response health_request (stdout_logger, draining_world))) = []"
    using h0 by simp
  from p a b show ?thesis by blast
qed

text \<open>
  Claim C9. When the context of the request holds no string under \<^verbatim>\<open>requestIDKey\<close>, the
  access-log stage logs \<^verbatim>\<open>unknown\<close> as the correlation id. For every request, with or
  without an id in its context, the response, the outcome and the state left by the stage
  are those of the wrapped handler, also when the sink of the logger refuses the write:
  nothing is written and the failure is not passed on. The same holds for the composed
  handler of the server: its response, outcome and state do not depend on whether the sink
  accepts the write.
\<close>

theorem logging_unknown_and_sink_errors:
  "((\<forall>rid. ctx_value (req_ctx r) requestIDKey \<noteq> Some (AString rid)) \<longrightarrow>
       log_calls (logging inner w r (lg, s)) =
         calls lg @ [[''unknown'', req_method r, url_path r, remote_addr r, user_agent r]])
   \<and> fst (logging inner w r (lg, s)) = fst (inner w r s)
   \<and> fst (snd (logging inner w r (lg, s))) = fst (snd (inner w r s))
   \<and> fst (logging inner w r (lg\<lparr>sink_ok := False\<rparr>, s)) = fst (inner w r s)
   \<and> fst (snd (logging inner w r (lg\<lparr>sink_ok := False\<rparr>, s))) = fst (snd (inner w r s))
   \<and> written (fst (snd (snd (logging inner w r (lg\<lparr>sink_ok := False\<rparr>, s))))) = written lg
   \<and> fst (server_handler render w r (lg\<lparr>sink_ok := False\<rparr>, s0)) = fst (server_handler render w r (lg, s0))
   \<and> fst (snd (server_handler render w r (lg\<lparr>sink_ok := False\<rparr>, s0)))
        = fst (snd (server_handler render w r (lg, s0)))
   \<and> snd (snd (snd (server_handler render w r (lg\<lparr>sink_ok := False\<rparr>, s0))))
        = snd (snd (snd (server_handler render w r (lg, s0))))"
proof -
  have 1: "(\<forall>rid. ctx_value (req_ctx r) requestIDKey \<noteq> Some (AString rid)) \<longrightarrow>
       log_calls (logging inner w r (lg, s)) =
         calls lg @ [[''unknown'', req_method r, url_path r, remote_addr r, user_agent r]]"
  proof
    assume "\<forall>rid. ctx_value (req_ctx r) requestIDKey \<noteq> Some (AString rid)"
    from as_string_not_string [OF this]
    show "log_calls (logging inner w r (lg, s)) =
         calls lg @ [[''unknown'', req_method r, url_path r, remote_addr r, user_agent r]]"
      by (simp add: logging_result log_calls_def println_calls)
  qed
  have 2: "written (fst (snd (snd (logging inner w r (lg\<lparr>sink_ok := False\<rparr>, s))))) = written lg"
    by (simp add: logging_result println_broken)
  have 3: "fst (server_handler render w r (lg\<lparr>sink_ok := False\<rparr>, s0)) = fst (server_handler render w r (lg, s0))
     \<and> fst (snd (server_handler render w r (lg\<lparr>sink_ok := False\<rparr>, s0)))
        = fst (snd (server_handler render w r (lg, s0)))
     \<and> snd (snd (snd (server_handler render w r (lg\<lparr>sink_ok := False\<rparr>, s0))))
        = snd (snd (snd (server_handler render w r (lg, s0))))"
    by (simp add: server_handler_result Let_def)
  from 1 2 3 println_response_free [of inner w r lg s]
    println_response_free [of inner w r "lg\<lparr>sink_ok := False\<rparr>" s]
  show ?thesis by blast
qed

theorem logging_unknown_and_sink_errors_witness:
  "(\<forall>rid. ctx_value (req_ctx anon_request) requestIDKey \<noteq> Some (AString rid))
   \<and> log_calls (logging helloHandler new_response anon_request (broken_logger, ticking_world)) =
        [[''unknown'', ''GET'', ''/hello'', ''127.0.0.1:50000'', ''curl/7.58.0'']]
   \<and> status (fst (logging helloHandler new_response anon_request (broken_logger, ticking_world))) = Some 200
   \<and> status (fst (server_handler no_template new_response tagged_request (broken_logger, ticking_world))) = Some 200"
proof -
  have c: "\<forall>rid. ctx_value (req_ctx anon_request) requestIDKey \<noteq> Some (AString rid)"
    by (simp add: anon_request_def ctx_value_def)
  note t = logging_unknown_and_sink_errors [where inner = helloHandler and w = new_response
      and lg = broken_logger and s = ticking_world and r = anon_request]
  from t c have 1: "log_calls (logging helloHandler new_response anon_request (broken_logger, ticking_world)) =
        calls broken_logger @ [[''unknown'', req_method anon_request, url_path anon_request,
           remote_addr anon_request, user_agent anon_request]]" by blast
  have 2: "calls broken_logger @ [[''unknown'', req_method anon_request, url_path anon_request,
           remote_addr anon_request, user_agent anon_request]] =
        [[''unknown'', ''GET'', ''/hello'', ''127.0.0.1:50000'', ''curl/7.58.0'']]"
    by (simp add: broken_logger_def anon_request_def user_agent_def header_get_def curl_headers_def)
  from t have 3: "fst (logging helloHandler new_response anon_request (broken_logger, ticking_world))
      = fst (helloHandler new_response anon_request ticking_world)" by blast
  have 4: "status (fst (helloHandler new_response anon_request ticking_world)) = Some 200"
    by (simp add: helloHandler_def fprintln_def write_body_def write_header_def new_response_def Let_def
        body_allowed_for_status_def)
  have b: "broken_logger = stdout_logger\<lparr>sink_ok := False\<rparr>"
    by (simp add: broken_logger_def stdout_logger_def)
  note u = logging_unknown_and_sink_errors [where render = no_template and w = new_response
      and lg = stdout_logger and ?s0.0 = ticking_world and r = tagged_request
      and inner = helloHandler and s = ticking_world]
  from u b have 5: "fst (server_handler no_template new_response tagged_request (broken_logger, ticking_world))
      = fst (server_handler no_template new_response tagged_request (stdout_logger, ticking_world))" by simp
  have 6: "status (fst (server_handler no_template new_response tagged_request (stdout_logger, ticking_world))) = Some 200"
    by (simp add: server_handler_result Let_def routes_def tagged_request_def helloHandler_def
        fprintln_def write_body_def write_header_def new_response_def body_allowed_for_status_def)
  from c 1 2 3 4 5 6 show ?thesis by simp
qed

section \<open>The claims about the orchestration\<close>

text \<open>
  Claim C4, as stated, fails. The stores to \<^verbatim>\<open>healthy\<close> are plain writes. When the signal
  arrives before \<^verbatim>\<open>main\<close> has reached line 67, the goroutine of line 51 stores 0 first and
  \<^verbatim>\<open>main\<close> stores 1 afterwards: the flag is ready although draining has begun.
\<close>

theorem flag_ready_after_draining:
  "trace_after early_signal = Some [EvSignal, EvSetDraining, EvSetReady]
   \<and> ready_after early_signal = Some True"
  by (simp add: trace_after_def ready_after_def early_signal_def step_def main_step_def sig_step_def
      init_def is_ready_def)

text \<open>
  Claim C4, amended. The flag shows the last store executed: it is not ready before the
  store of 1, ready after the store of 1 as long as 0 has not been stored, and in every
  execution in which the store of 1 comes before the store of 0 it is not ready from the
  store of 0 on, whatever happens afterwards.
\<close>

theorem flag_follows_stores:
  assumes "run addr as init = Some s" and "run addr bs s = Some s'"
  shows "is_ready s = last_store_ready (trace s)
       \<and> (EvSetReady \<notin> set (trace s) \<longrightarrow> \<not> is_ready s)
       \<and> (EvSetReady \<in> set (trace s) \<and> EvSetDraining \<notin> set (trace s) \<longrightarrow> is_ready s)
       \<and> (EvSetDraining \<in> set (trace s) \<and> precedes EvSetReady EvSetDraining (trace s) \<longrightarrow> \<not> is_ready s')"
proof -
  have f: "is_ready s = last_store_ready (trace s)" by (rule run_flag [OF assms(1)])
  have 1: "EvSetReady \<notin> set (trace s) \<longrightarrow> \<not> is_ready s"
    using f last_store_ready_has_ready by blast
  have 2: "EvSetReady \<in> set (trace s) \<and> EvSetDraining \<notin> set (trace s) \<longrightarrow> is_ready s"
    using f ready_only_last_store by blast
  have 3: "EvSetDraining \<in> set (trace s) \<and> precedes EvSetReady EvSetDraining (trace s) \<longrightarrow> \<not> is_ready s'"
  proof
    assume h: "EvSetDraining \<in> set (trace s) \<and> precedes EvSetReady EvSetDraining (trace s)"
    then have r: "EvSetReady \<in> set (trace s)" using precedes_has_first [of EvSetReady EvSetDraining "trace s"] by simp
    from run_trace_grows [OF assms(2)] obtain ext where e: "trace s' = trace s @ ext" by blast
    have d': "EvSetDraining \<in> set (trace s')" using h e by simp
    have p': "precedes EvSetReady EvSetDraining (trace s')"
      using h e precedes_append_fixed [OF r, of EvSetDraining ext] by simp
    have "run addr (as @ bs) init = Some s'" using assms by (simp add: run_append)
    from run_ready_event [OF this] d' p' have "flag s' = 0" by blast
    then show "\<not> is_ready s'" by (simp add: is_ready_def)
  qed
  from f 1 2 3 show ?thesis by blast
qed

theorem flag_follows_stores_witness:
  "ready_after [] = Some False
   \<and> ready_after ready_before_bind = Some True
   \<and> ready_after shutdown_begins = Some False
   \<and> ready_after graceful_stop = Some False"
proof -
  from shutdown_begins_runs obtain s where r: "run '':9000'' shutdown_begins init = Some s"
    and t: "trace s = [EvSetReady, EvBind, EvSignal, EvSetDraining, EvTimerArmed, EvKeepAlivesOff,
                  EvListenersClosed, EvDrainWait]" by blast
  have "\<exists>s'. run '':9000'' graceful_stop init = Some s'"
    by (simp add: graceful_stop_def shutdown_begins_def step_def main_step_def sig_step_def init_def)
  then obtain s' where g: "run '':9000'' graceful_stop init = Some s'" by blast
  have r': "run '':9000'' [ShutdownReturns None, RunSig, RunMain, RunMain, RunMain] s = Some s'"
    using g r by (simp add: graceful_stop_def run_append)
  have "\<exists>s0. run '':9000'' ready_before_bind init = Some s0 \<and> trace s0 = [EvSetReady]"
    by (simp add: ready_before_bind_def step_def main_step_def init_def)
  then obtain s0 where r0: "run '':9000'' ready_before_bind init = Some s0"
    and t0: "trace s0 = [EvSetReady]" by blast
  have d: "EvSetDraining \<in> set (trace s) \<and> precedes EvSetReady EvSetDraining (trace s)"
    using t by simp
  from flag_follows_stores [OF r r'] d have 1: "\<not> is_ready s'" by blast
  have rs: "run '':9000'' [] s = Some s" by simp
  from flag_follows_stores [OF r rs] d have 2: "\<not> is_ready s" by blast
  have rs0: "run '':9000'' [] s0 = Some s0" by simp
  have d0: "EvSetReady \<in> set (trace s0) \<and> EvSetDraining \<notin> set (trace s0)" using t0 by simp
  from flag_follows_stores [OF r0 rs0] d0 have 3: "is_ready s0" by blast
  have ri: "run '':9000'' [] init = Some init" by simp
  have di: "EvSetReady \<notin> set (trace init)" by (simp add: init_def)
  from flag_follows_stores [OF ri ri] di have 4: "\<not> is_ready init" by blast
  from 1 2 3 4 g r r0 show ?thesis by (simp add: ready_after_def)
qed

text \<open>
  Claim C5, as stated, fails. \<^verbatim>\<open>main\<close> stores 1 at line 67 and calls
  \<^verbatim>\<open>ListenAndServe\<close>, which binds the socket, at line 68: after the store the flag is
  ready and the socket is not yet bound.
\<close>

theorem ready_before_socket_bound:
  "trace_after ready_before_bind = Some [EvSetReady]
   \<and> ready_after ready_before_bind = Some True
   \<and> listening_after ready_before_bind = Some False"
  by (simp add: trace_after_def ready_after_def listening_after_def ready_before_bind_def
      step_def main_step_def init_def is_ready_def)

text \<open>
  Claim C5, amended. The store of 1 is the statement before the call of
  \<^verbatim>\<open>ListenAndServe\<close>: in every execution the socket is bound only after the store, the
  server listens only when the store has happened, and the store has happened exactly when
  \<^verbatim>\<open>main\<close> has reached the call of \<^verbatim>\<open>ListenAndServe\<close>.
\<close>

theorem ready_precedes_bind:
  assumes "run addr as init = Some s"
  shows "precedes EvSetReady EvBind (trace s)
       \<and> (listening s \<longrightarrow> EvBind \<in> set (trace s) \<and> EvSetReady \<in> set (trace s))
       \<and> (EvSetReady \<in> set (trace s) \<longleftrightarrow> mpc s \<noteq> M_LogReady \<and> mpc s \<noteq> M_SetReady)"
proof -
  note i = run_ready_event [OF assms]
  from i have p: "precedes EvSetReady EvBind (trace s)" by blast
  from i have l: "listening s \<longrightarrow> EvBind \<in> set (trace s)" by blast
  have "EvBind \<in> set (trace s) \<longrightarrow> EvSetReady \<in> set (trace s)"
    using p precedes_has_first [of EvSetReady EvBind "trace s"] by simp
  with i p l show ?thesis by blast
qed

theorem ready_precedes_bind_witness:
  "trace_after server_starts = Some [EvSetReady, EvBind]
   \<and> listening_after server_starts = Some True
   \<and> precedes EvSetReady EvBind [EvSetReady, EvBind]"
proof -
  have "\<exists>s. run '':9000'' server_starts init = Some s \<and> trace s = [EvSetReady, EvBind] \<and> listening s"
    by (simp add: server_starts_def step_def main_step_def init_def)
  then obtain s where r: "run '':9000'' server_starts init = Some s"
    and t: "trace s = [EvSetReady, EvBind]" and l: "listening s" by blast
  from ready_precedes_bind [OF r] have "precedes EvSetReady EvBind (trace s)" by blast
  with t have p: "precedes EvSetReady EvBind [EvSetReady, EvBind]" by simp
  from r t l p show ?thesis by (simp add: trace_after_def listening_after_def)
qed

text \<open>
  Claim C6, as stated, fails. When the deadline passes during the drain, \<^verbatim>\<open>Shutdown\<close>
  returns the error of the context and line 61 calls \<^verbatim>\<open>logger.Fatalf\<close>: the process ends
  with status 1 and \<^verbatim>\<open>done\<close> is never closed.
\<close>

theorem drain_timeout_is_fatal:
  "exit_after drain_times_out = Some (Some 1)
   \<and> done_after drain_times_out = Some False
   \<and> log_after drain_times_out =
       Some [[''Server is ready to handle requests at'', '':9000''],
             [''Server is shutting down...''],
             [''Could not gracefully shutdown the server: context deadline exceeded'']]"
  by (simp add: exit_after_def done_after_def log_after_def drain_times_out_def shutdown_begins_def
      deadline_exceeded_def step_def main_step_def sig_step_def fatalf_def init_def
      println_calls start_logger_def)

text \<open>
  Claim C6, amended. Whenever the goroutine of line 51 waits in \<^verbatim>\<open>Shutdown\<close>, an error
  returned by \<^verbatim>\<open>Shutdown\<close>, the passed deadline among them, can be taken, and then the
  message \<^verbatim>\<open>Could not gracefully shutdown the server\<close> with the error is logged through
  \<^verbatim>\<open>Fatalf\<close> and the process ends with status 1: \<^verbatim>\<open>done\<close> is not closed,
  \<^verbatim>\<open>Server stopped\<close> is not logged, and no further step is taken.
\<close>

theorem shutdown_error_exits:
  assumes "run addr as init = Some s" and "spc s = S_Draining"
  shows "\<exists>s'. step addr (ShutdownReturns (Some err)) s = Some s'
           \<and> exit_status s' = Some 1
           \<and> calls (plog s') = calls (plog s) @ [[''Could not gracefully shutdown the server: '' @ err]]
           \<and> \<not> done_closed s'
           \<and> [''Server stopped''] \<notin> set (calls (plog s'))
           \<and> (\<forall>a. step addr a s' = None)"
proof -
  note i = run_done [OF assms(1)]
  from i assms(2) have e: "exit_status s = None" by blast
  from i assms(2) have d: "\<not> done_closed s" by auto
  from i assms(2) have n: "[''Server stopped''] \<notin> set (calls (plog s))" by auto
  let ?s' = "fatalf (''Could not gracefully shutdown the server: '' @ err)
               (s\<lparr>trace := trace s @ [EvShutdownError], spc := S_Fatal\<rparr>)"
  have 1: "step addr (ShutdownReturns (Some err)) s = Some ?s'"
    using e assms(2) by (simp add: step_def)
  have 2: "exit_status ?s' = Some 1" by (simp add: fatalf_def)
  have 3: "calls (plog ?s') = calls (plog s) @ [[''Could not gracefully shutdown the server: '' @ err]]"
    by (simp add: fatalf_def println_calls)
  have 4: "\<not> done_closed ?s'" using d by (simp add: fatalf_def)
  have 5: "[''Server stopped''] \<notin> set (calls (plog ?s'))" using n 3 by simp
  have 6: "\<forall>a. step addr a ?s' = None" using 2 by (simp add: step_def)
  from 1 2 3 4 5 6 show ?thesis by blast
qed

theorem shutdown_error_exits_witness:
  "map_option spc (run '':9000'' shutdown_begins init) = Some S_Draining
   \<and> exit_after drain_times_out = Some (Some 1)"
proof -
  from shutdown_begins_runs obtain s where r: "run '':9000'' shutdown_begins init = Some s"
    and p: "spc s = S_Draining" by blast
  from shutdown_error_exits [OF r p, of deadline_exceeded] obtain s'
    where st: "step '':9000'' (ShutdownReturns (Some deadline_exceeded)) s = Some s'"
      and ex: "exit_status s' = Some 1" by blast
  have "run '':9000'' drain_times_out init = Some s'"
    using r st by (simp add: drain_times_out_def run_append)
  with ex r p show ?thesis by (simp add: exit_after_def)
qed



end
